theory Spec2Isabelle
  imports Main "HOL-Library.Word" "HOL-Library.AList" "HOL-Library.Sublist"
begin

unbundle bit_operations_syntax

section \<open>Bytes, strings and hexadecimal text\<close>

text \<open>
  A Go \<open>[]byte\<close> is a list of 8-bit words, a Go \<open>string\<close> is an Isabelle \<open>string\<close>
  (a list of 8-bit characters). The conversions \<open>[]byte(s)\<close> and \<open>string(b)\<close> keep
  every byte.
\<close>

type_synonym byte = "8 word"

definition bytes_of_string :: "string \<Rightarrow> byte list" where
  "bytes_of_string s = map of_char s"

definition string_of_bytes :: "byte list \<Rightarrow> string" where
  "string_of_bytes bs = map (\<lambda>b. char_of (unat b)) bs"

text \<open>
  The errors the repository can return. Errors of the operating system carry an
  \<open>errno\<close>; the others are the error values of \<open>io\<close>, \<open>encoding/hex\<close> and of the
  repository itself (\<open>ErrIDDoesNotExist\<close>).
\<close>

datatype errno = ENOENT | EEXIST | EISDIR | ENOTDIR | ENOTEMPTY | EINVAL | EBADF | EACCES | EIO | ENOSPC

datatype error =
    Errno errno
  | ErrIDDoesNotExist
  | EOF
  | ErrUnexpectedEOF
  | ErrLength
  | InvalidByteError byte

definition os_IsNotExist :: "error \<Rightarrow> bool" where
  "os_IsNotExist err = (err = Errno ENOENT)"

definition os_IsExist :: "error \<Rightarrow> bool" where
  "os_IsExist err = (err = Errno EEXIST)"

subsection \<open>encoding/hex\<close>

definition hextable :: string where
  "hextable = ''0123456789abcdef''"

text \<open>\<open>hex.Encode\<close>: two digits per byte, \<open>hextable[v>>4]\<close> and \<open>hextable[v&0x0f]\<close>.\<close>

fun hex_Encode :: "byte list \<Rightarrow> byte list" where
  "hex_Encode [] = []"
| "hex_Encode (v # src) =
     of_char (hextable ! unat (drop_bit 4 v)) #
     of_char (hextable ! unat (v AND 0x0f)) # hex_Encode src"

definition hex_EncodeToString :: "byte list \<Rightarrow> string" where
  "hex_EncodeToString src = string_of_bytes (hex_Encode src)"

text \<open>\<open>fromHexChar\<close>: digits, then lower case, then upper case letters.\<close>

definition fromHexChar :: "byte \<Rightarrow> byte option" where
  "fromHexChar c =
     (if 0x30 \<le> c \<and> c \<le> 0x39 then Some (c - 0x30)
      else if 0x61 \<le> c \<and> c \<le> 0x66 then Some (c - 0x61 + 10)
      else if 0x41 \<le> c \<and> c \<le> 0x46 then Some (c - 0x41 + 10)
      else None)"

text \<open>
  \<open>hex.Decode\<close> walks the source pair by pair and stops at the first character that is
  no hexadecimal digit (\<open>InvalidByteError\<close>); a single character left over at the end
  is \<open>ErrLength\<close>, unless it is itself invalid.
\<close>

fun hex_Decode :: "byte list \<Rightarrow> error + byte list" where
  "hex_Decode [] = Inr []"
| "hex_Decode [p] =
     (case fromHexChar p of None \<Rightarrow> Inl (InvalidByteError p) | Some a \<Rightarrow> Inl ErrLength)"
| "hex_Decode (p # q # src) =
     (case fromHexChar p of
        None \<Rightarrow> Inl (InvalidByteError p)
      | Some a \<Rightarrow>
          (case fromHexChar q of
             None \<Rightarrow> Inl (InvalidByteError q)
           | Some b \<Rightarrow>
               (case hex_Decode src of
                  Inl err \<Rightarrow> Inl err
                | Inr dst \<Rightarrow> Inr ((push_bit 4 a OR b) # dst))))"

definition hex_DecodeString :: "string \<Rightarrow> error + byte list" where
  "hex_DecodeString s = hex_Decode (bytes_of_string s)"

section \<open>Identifiers and names\<close>

type_synonym ID = "byte list"

definition ID_String :: "ID \<Rightarrow> string" where
  "ID_String ident = hex_EncodeToString ident"

definition ID_Equal :: "ID \<Rightarrow> ID \<Rightarrow> bool" where
  "ID_Equal ident other = (ident = other)"

definition ID_EqualString :: "ID \<Rightarrow> string \<Rightarrow> bool \<times> error option" where
  "ID_EqualString ident other =
     (case hex_DecodeString other of
        Inl err \<Rightarrow> (False, Some err)
      | Inr s \<Rightarrow> (ID_Equal ident s, None))"

text \<open>
  The text that \<open>EqualString\<close> is specified for: hexadecimal digits (either case) of
  even length.
\<close>

definition is_hex_digit :: "char \<Rightarrow> bool" where
  "is_hex_digit c = (c \<in> set ''0123456789abcdefABCDEF'')"

definition valid_hex :: "string \<Rightarrow> bool" where
  "valid_hex s = (even (length s) \<and> list_all is_hex_digit s)"

text \<open>The character codes of the hexadecimal digits.\<close>

definition hex_code :: "nat \<Rightarrow> bool" where
  "hex_code n = ((48 \<le> n \<and> n \<le> 57) \<or> (97 \<le> n \<and> n \<le> 102) \<or> (65 \<le> n \<and> n \<le> 70))"

subsection \<open>net/url: QueryEscape\<close>

text \<open>
  \<open>shouldEscape\<close> in the mode \<open>encodeQueryComponent\<close>: letters, digits and the four
  marks \<open>- _ . ~\<close> stay, everything else is escaped.
\<close>

definition shouldEscape :: "char \<Rightarrow> bool" where
  "shouldEscape c =
     (let n = (of_char c :: nat) in
      if (65 \<le> n \<and> n \<le> 90) \<or> (97 \<le> n \<and> n \<le> 122) \<or> (48 \<le> n \<and> n \<le> 57) then False
      else if c \<in> set ''-_.~'' then False
      else True)"

definition upperhex :: string where
  "upperhex = ''0123456789ABCDEF''"

fun url_QueryEscape :: "string \<Rightarrow> string" where
  "url_QueryEscape [] = []"
| "url_QueryEscape (c # s) =
     (if c = CHR '' '' then CHR ''+'' # url_QueryEscape s
      else if shouldEscape c then
        CHR ''%'' # upperhex ! ((of_char c :: nat) div 16) # upperhex ! ((of_char c :: nat) mod 16) #
        url_QueryEscape s
      else c # url_QueryEscape s)"

definition Name_Encode :: "string \<Rightarrow> string" where
  "Name_Encode n = url_QueryEscape n"

section \<open>The file system\<close>

text \<open>
  A path is the list of its segments, from the root. The file system is a table from
  paths to nodes, a regular file with its bytes or a directory. It is taken to be
  tree-shaped above the level the repository works at: an operation checks that the
  directory holding its target is a directory.
\<close>

type_synonym path = "string list"

datatype node = File "byte list" | Directory

text \<open>
  The system calls that can fail for reasons outside the table (permissions, a full
  disk, a broken device): \<open>fault\<close> gives the error such a call meets, if any.
  \<open>short_write\<close> is the number of bytes a failing write still gets through, and
  \<open>rand\<close> is the sequence of suffixes \<open>ioutil.TempFile\<close> draws.
\<close>

datatype syscall =
  SysMkdir | SysOpen | SysCreate | SysTempFile | SysRead | SysWrite | SysClose | SysRename | SysRemove

record world =
  nodes :: "(path \<times> node) list"
  fault :: "syscall \<Rightarrow> errno option"
  short_write :: nat
  rand :: "nat \<Rightarrow> string"

definition node_at :: "world \<Rightarrow> path \<Rightarrow> node option" where
  "node_at w p = map_of (nodes w) p"

definition set_node :: "path \<Rightarrow> node \<Rightarrow> world \<Rightarrow> world" where
  "set_node p n w = w\<lparr>nodes := AList.update p n (nodes w)\<rparr>"

definition del_node :: "path \<Rightarrow> world \<Rightarrow> world" where
  "del_node p w = w\<lparr>nodes := AList.delete p (nodes w)\<rparr>"

text \<open>The names of the entries of a directory.\<close>

definition ls :: "world \<Rightarrow> path \<Rightarrow> string list" where
  "ls w d = map last (filter (\<lambda>q. q \<noteq> [] \<and> butlast q = d) (map fst (nodes w)))"

text \<open>The error of reaching the directory that holds \<open>p\<close>, if there is one.\<close>

definition dir_err :: "world \<Rightarrow> path \<Rightarrow> errno option" where
  "dir_err w p =
     (if p = [] then None
      else case node_at w (butlast p) of
             None \<Rightarrow> Some ENOENT
           | Some (File c) \<Rightarrow> Some ENOTDIR
           | Some Directory \<Rightarrow> None)"

definition stat :: "world \<Rightarrow> path \<Rightarrow> errno + node" where
  "stat w p =
     (case dir_err w p of
        Some e \<Rightarrow> Inl e
      | None \<Rightarrow> (case node_at w p of None \<Rightarrow> Inl ENOENT | Some n \<Rightarrow> Inr n))"

subsection \<open>path.Join\<close>

text \<open>
  \<open>path.Join\<close> ignores empty elements and cleans the result: a segment \<open>.\<close> is
  dropped and a segment \<open>..\<close> removes the segment before it. The first element is the
  repository's directory, already a list of segments; the elements joined to it are
  single segments (the constants below, hexadecimal text, and escaped names, in which
  \<open>/\<close> is escaped).
\<close>

definition clean_step :: "path \<Rightarrow> string \<Rightarrow> path" where
  "clean_step p e =
     (if e = '''' \<or> e = ''.'' then p
      else if e = ''..'' then butlast p
      else p @ [e])"

definition path_Join :: "path \<Rightarrow> string list \<Rightarrow> path" where
  "path_Join root elems = foldl clean_step root elems"

subsection \<open>os, io and io/ioutil\<close>

text \<open>
  A file opened for reading is the node it refers to: nothing changes it while the
  repository holds it. A file opened for writing is its name; what is written goes to
  the table.
\<close>

type_synonym os_File = path

definition os_Open :: "path \<Rightarrow> world \<Rightarrow> error + node" where
  "os_Open name w =
     (case fault w SysOpen of
        Some e \<Rightarrow> Inl (Errno e)
      | None \<Rightarrow> (case stat w name of Inl e \<Rightarrow> Inl (Errno e) | Inr n \<Rightarrow> Inr n))"

text \<open>\<open>os.Create\<close>: open for writing, create if missing, truncate if present.\<close>

definition os_Create :: "path \<Rightarrow> world \<Rightarrow> world \<times> (error + os_File)" where
  "os_Create name w =
     (case fault w SysCreate of
        Some e \<Rightarrow> (w, Inl (Errno e))
      | None \<Rightarrow>
          (case dir_err w name of
             Some e \<Rightarrow> (w, Inl (Errno e))
           | None \<Rightarrow>
               (case node_at w name of
                  Some Directory \<Rightarrow> (w, Inl (Errno EISDIR))
                | _ \<Rightarrow> (set_node name (File []) w, Inr name))))"

text \<open>The exclusive create of \<open>ioutil.TempFile\<close> (\<open>O_RDWR|O_CREATE|O_EXCL\<close>).\<close>

definition open_excl :: "path \<Rightarrow> world \<Rightarrow> world \<times> (error + os_File)" where
  "open_excl name w =
     (case fault w SysTempFile of
        Some e \<Rightarrow> (w, Inl (Errno e))
      | None \<Rightarrow>
          (case dir_err w name of
             Some e \<Rightarrow> (w, Inl (Errno e))
           | None \<Rightarrow>
               (case node_at w name of
                  Some n \<Rightarrow> (w, Inl (Errno EEXIST))
                | None \<Rightarrow> (set_node name (File []) w, Inr name))))"

text \<open>
  \<open>ioutil.TempFile\<close> draws a suffix, tries to create the file, and draws again while
  the name is taken, at most 10000 times.
\<close>

fun tempfile_loop :: "nat \<Rightarrow> path \<Rightarrow> string \<Rightarrow> world \<Rightarrow> world \<times> (error + os_File)" where
  "tempfile_loop 0 dir pfx w = (w, Inl (Errno EEXIST))"
| "tempfile_loop (Suc k) dir pfx w =
     (let name = dir @ [pfx @ rand w 0];
          w1 = w\<lparr>rand := \<lambda>i. rand w (Suc i)\<rparr>
      in case open_excl name w1 of
           (w2, Inl err) \<Rightarrow>
             if os_IsExist err then tempfile_loop k dir pfx w2 else (w2, Inl err)
         | (w2, Inr f) \<Rightarrow> (w2, Inr f))"

definition ioutil_TempFile :: "path \<Rightarrow> string \<Rightarrow> world \<Rightarrow> world \<times> (error + os_File)" where
  "ioutil_TempFile dir pfx w = tempfile_loop 10000 dir pfx w"

text \<open>
  \<open>File.Write\<close> appends to the file (the handle is fresh or truncated, and written
  once). A failing write leaves the first \<open>short_write\<close> bytes behind.
\<close>

definition file_Write :: "os_File \<Rightarrow> byte list \<Rightarrow> world \<Rightarrow> world \<times> nat \<times> error option" where
  "file_Write f bs w =
     (case node_at w f of
        Some (File c) \<Rightarrow>
          (case fault w SysWrite of
             Some e \<Rightarrow>
               (let n = min (short_write w) (length bs)
                in (set_node f (File (c @ take n bs)) w, n, Some (Errno e)))
           | None \<Rightarrow> (set_node f (File (c @ bs)) w, length bs, None))
      | _ \<Rightarrow> (w, 0, Some (Errno EBADF)))"

definition file_Close :: "os_File \<Rightarrow> world \<Rightarrow> error option" where
  "file_Close f w = map_option Errno (fault w SysClose)"

text \<open>
  \<open>io.ReadFull\<close> from the start of an opened file: exactly \<open>n\<close> bytes, \<open>EOF\<close> when
  there is none, \<open>ErrUnexpectedEOF\<close> when there are fewer. For \<open>n = 0\<close> it does not
  read at all.
\<close>

definition io_ReadFull :: "node \<Rightarrow> nat \<Rightarrow> world \<Rightarrow> error + byte list" where
  "io_ReadFull f n w =
     (if n = 0 then Inr []
      else case fault w SysRead of
             Some e \<Rightarrow> Inl (Errno e)
           | None \<Rightarrow>
               (case f of
                  Directory \<Rightarrow> Inl (Errno EISDIR)
                | File c \<Rightarrow>
                    if n \<le> length c then Inr (take n c)
                    else if c = [] then Inl EOF
                    else Inl ErrUnexpectedEOF))"

text \<open>
  \<open>os.Rename\<close> is atomic: it fails without a change or moves the entry. A file
  replaces a file; it does not replace a directory. A directory moves with all that is
  below it, onto nothing or onto an empty directory.
\<close>

definition os_Rename :: "path \<Rightarrow> path \<Rightarrow> world \<Rightarrow> world \<times> error option" where
  "os_Rename old new w =
     (case fault w SysRename of
        Some e \<Rightarrow> (w, Some (Errno e))
      | None \<Rightarrow>
          (case stat w old of
             Inl e \<Rightarrow> (w, Some (Errno e))
           | Inr (File c) \<Rightarrow>
               (case dir_err w new of
                  Some e \<Rightarrow> (w, Some (Errno e))
                | None \<Rightarrow>
                    (case node_at w new of
                       Some Directory \<Rightarrow> (w, Some (Errno EISDIR))
                     | _ \<Rightarrow> (set_node new (File c) (del_node old w), None)))
           | Inr Directory \<Rightarrow>
               (case dir_err w new of
                  Some e \<Rightarrow> (w, Some (Errno e))
                | None \<Rightarrow>
                    if old = new then (w, None)
                    else if prefix old new then (w, Some (Errno EINVAL))
                    else (case node_at w new of
                            Some (File c) \<Rightarrow> (w, Some (Errno ENOTDIR))
                          | _ \<Rightarrow>
                              if ls w new \<noteq> [] then (w, Some (Errno ENOTEMPTY))
                              else (w\<lparr>nodes :=
                                      map (\<lambda>(q, n). if prefix old q
                                                     then (new @ drop (length old) q, n)
                                                     else (q, n))
                                          (AList.delete new (nodes w))\<rparr>, None)))))"

text \<open>\<open>os.Remove\<close> removes a file or an empty directory.\<close>

definition os_Remove :: "path \<Rightarrow> world \<Rightarrow> world \<times> error option" where
  "os_Remove name w =
     (case fault w SysRemove of
        Some e \<Rightarrow> (w, Some (Errno e))
      | None \<Rightarrow>
          (case stat w name of
             Inl e \<Rightarrow> (w, Some (Errno e))
           | Inr (File c) \<Rightarrow> (del_node name w, None)
           | Inr Directory \<Rightarrow>
               if ls w name \<noteq> [] then (w, Some (Errno ENOTEMPTY))
               else (del_node name w, None)))"

text \<open>
  \<open>os.MkdirAll\<close>: nothing to do for a directory, \<open>ENOTDIR\<close> for a file; otherwise
  the parent first, then the directory itself.
\<close>

function os_MkdirAll :: "path \<Rightarrow> world \<Rightarrow> world \<times> error option" where
  "os_MkdirAll p w =
     (case fault w SysMkdir of
        Some e \<Rightarrow> (w, Some (Errno e))
      | None \<Rightarrow>
          (case node_at w p of
             Some Directory \<Rightarrow> (w, None)
           | Some (File c) \<Rightarrow> (w, Some (Errno ENOTDIR))
           | None \<Rightarrow>
               if p = [] then (w, Some (Errno ENOENT))
               else (case os_MkdirAll (butlast p) w of
                       (w1, Some err) \<Rightarrow> (w1, Some err)
                     | (w1, None) \<Rightarrow> (set_node p Directory w1, None))))"
  by pat_completeness auto
termination
  by (relation "measure (\<lambda>(p, w). length p)") auto

declare os_MkdirAll.simps [simp del]

section \<open>The hashing reader\<close>

text \<open>
  A hash function (\<open>hash.Hash\<close>) is what it computes on the bytes written to it, and
  the length of its digests.
\<close>

record hash_Hash =
  hash_Sum :: "byte list \<Rightarrow> byte list"
  hash_Size :: nat

text \<open>
  Modelled from the spec: the package \<open>hashing\<close> (\<open>hashing.NewReader\<close> and the
  reader's \<open>Hash\<close>) is not among the sources. Section 4.2 of the specification says
  that every byte that passes through is fed to the hash accumulator exactly once and
  in order, and that the digest is exposed after the transfer.
\<close>

record hashing_Reader =
  rd_unread :: "byte list"
  rd_alg :: hash_Hash
  rd_seen :: "byte list"

definition hashing_NewReader :: "byte list \<Rightarrow> hash_Hash \<Rightarrow> hashing_Reader" where
  "hashing_NewReader reader h = \<lparr>rd_unread = reader, rd_alg = h, rd_seen = []\<rparr>"

definition Reader_Hash :: "hashing_Reader \<Rightarrow> byte list" where
  "Reader_Hash rd = hash_Sum (rd_alg rd) (rd_seen rd)"

text \<open>\<open>io.Copy\<close> reads the reader to its end and writes what it reads.\<close>

definition io_Copy :: "os_File \<Rightarrow> hashing_Reader \<Rightarrow> world \<Rightarrow> world \<times> hashing_Reader \<times> error option" where
  "io_Copy dst rd w =
     (let data = rd_unread rd;
          rd' = rd\<lparr>rd_unread := [], rd_seen := rd_seen rd @ data\<rparr>
      in case file_Write dst data w of (w', n, err) \<Rightarrow> (w', rd', err))"

section \<open>The directory repository\<close>

definition objectPath :: string where "objectPath = ''objects''"
definition refPath :: string where "refPath = ''refs''"
definition tempPath :: string where "tempPath = ''tmp''"

record Dir =
  path :: path
  hash :: hash_Hash

fun mkdirs :: "path list \<Rightarrow> world \<Rightarrow> world \<times> error option" where
  "mkdirs [] w = (w, None)"
| "mkdirs (dir # dirs) w =
     (case os_MkdirAll dir w of
        (w1, Some err) \<Rightarrow> (w1, Some err)
      | (w1, None) \<Rightarrow> mkdirs dirs w1)"

definition create :: "Dir \<Rightarrow> world \<Rightarrow> world \<times> error option" where
  "create r w =
     mkdirs [path r,
             path_Join (path r) [objectPath],
             path_Join (path r) [refPath],
             path_Join (path r) [tempPath]] w"

text \<open>\<open>NewDir\<close>; the default hash function \<open>sha256.New\<close> is a parameter.\<close>

definition NewDir :: "hash_Hash \<Rightarrow> path \<Rightarrow> world \<Rightarrow> world \<times> (error + Dir)" where
  "NewDir sha256 p w =
     (let d = \<lparr>path = p, hash = sha256\<rparr>
      in case create d w of
           (w1, Some err) \<Rightarrow> (w1, Inl err)
         | (w1, None) \<Rightarrow> (w1, Inr d))"

definition SetHash :: "Dir \<Rightarrow> hash_Hash \<Rightarrow> Dir" where
  "SetHash r h = r\<lparr>hash := h\<rparr>"

definition Path :: "Dir \<Rightarrow> path" where
  "Path r = path r"

text \<open>
  \<open>Put\<close>: the reader is the list of the bytes it yields. The world is returned as it
  is when \<open>Put\<close> returns, also on the error paths.
\<close>

definition Put :: "Dir \<Rightarrow> byte list \<Rightarrow> world \<Rightarrow> world \<times> (error + ID)" where
  "Put r reader w =
     (case ioutil_TempFile (path_Join (path r) [tempPath]) ''temp-'' w of
        (w1, Inl err) \<Rightarrow> (w1, Inl err)
      | (w1, Inr file) \<Rightarrow>
          (case io_Copy file (hashing_NewReader reader (hash r)) w1 of
             (w2, rd, Some err) \<Rightarrow> (w2, Inl err)
           | (w2, rd, None) \<Rightarrow>
               (case file_Close file w2 of
                  Some err \<Rightarrow> (w2, Inl err)
                | None \<Rightarrow>
                    (let ident = Reader_Hash rd;
                         filename = path_Join (path r) [objectPath, ID_String ident]
                     in case os_Rename file filename w2 of
                          (w3, Some err) \<Rightarrow> (w3, Inl err)
                        | (w3, None) \<Rightarrow> (w3, Inr ident)))))"

text \<open>
  \<open>Test\<close>: the deferred \<open>file.Close()\<close> has no effect on the result (on the error
  path the file is \<open>nil\<close> and \<open>Close\<close> returns an error that is dropped).
\<close>

definition Test :: "Dir \<Rightarrow> ID \<Rightarrow> world \<Rightarrow> bool \<times> error option" where
  "Test r ident w =
     (case os_Open (path_Join (path r) [objectPath, ID_String ident]) w of
        Inl err \<Rightarrow> if os_IsNotExist err then (False, None) else (False, Some err)
      | Inr file \<Rightarrow> (True, None))"

definition Get :: "Dir \<Rightarrow> ID \<Rightarrow> world \<Rightarrow> error + node" where
  "Get r ident w = os_Open (path_Join (path r) [objectPath, ID_String ident]) w"

definition Remove :: "Dir \<Rightarrow> ID \<Rightarrow> world \<Rightarrow> world \<times> error option" where
  "Remove r ident w = os_Remove (path_Join (path r) [objectPath, ID_String ident]) w"

definition Unlink :: "Dir \<Rightarrow> string \<Rightarrow> world \<Rightarrow> world \<times> error option" where
  "Unlink r name w = os_Remove (path_Join (path r) [refPath, Name_Encode name]) w"

text \<open>\<open>Link\<close>: what \<open>f.Write\<close> returns is not looked at.\<close>

definition Link :: "Dir \<Rightarrow> string \<Rightarrow> ID \<Rightarrow> world \<Rightarrow> world \<times> error option" where
  "Link r name ident w =
     (case Test r ident w of
        (exist, Some err) \<Rightarrow> (w, Some err)
      | (exist, None) \<Rightarrow>
          if \<not> exist then (w, Some ErrIDDoesNotExist)
          else (case os_Create (path_Join (path r) [refPath, Name_Encode name]) w of
                  (w1, Inl err) \<Rightarrow> (w1, Some err)
                | (w1, Inr f) \<Rightarrow>
                    (case file_Write f (bytes_of_string (hex_EncodeToString ident)) w1 of
                       (w2, n, err) \<Rightarrow> (w2, None))))"

definition Resolve :: "Dir \<Rightarrow> string \<Rightarrow> world \<Rightarrow> error + ID" where
  "Resolve r name w =
     (case os_Open (path_Join (path r) [refPath, Name_Encode name]) w of
        Inl err \<Rightarrow> Inl err
      | Inr f \<Rightarrow>
          (let l = hash_Size (hash r)
           in case io_ReadFull f (l * 2) w of
                Inl err \<Rightarrow> Inl err
              | Inr buf \<Rightarrow>
                  (case hex_Decode buf of
                     Inl err \<Rightarrow> Inl err
                   | Inr ident \<Rightarrow> Inr ident)))"

section \<open>Notions used in the properties\<close>

text \<open>The three directories of a repository and the names its operations work on.\<close>

definition objects_dir :: "Dir \<Rightarrow> path" where
  "objects_dir r = path r @ [objectPath]"

definition refs_dir :: "Dir \<Rightarrow> path" where
  "refs_dir r = path r @ [refPath]"

definition tmp_dir :: "Dir \<Rightarrow> path" where
  "tmp_dir r = path r @ [tempPath]"

definition object_name :: "Dir \<Rightarrow> ID \<Rightarrow> path" where
  "object_name r i = path_Join (path r) [objectPath, ID_String i]"

definition alias_name :: "Dir \<Rightarrow> string \<Rightarrow> path" where
  "alias_name r n = path_Join (path r) [refPath, Name_Encode n]"

text \<open>The directory tree of the repository is there.\<close>

definition repo_ok :: "Dir \<Rightarrow> world \<Rightarrow> bool" where
  "repo_ok r w =
     (node_at w (path r) = Some Directory \<and>
      node_at w (objects_dir r) = Some Directory \<and>
      node_at w (refs_dir r) = Some Directory \<and>
      node_at w (tmp_dir r) = Some Directory)"

text \<open>No system call meets an error from outside the table.\<close>

definition no_faults :: "world \<Rightarrow> bool" where
  "no_faults w = (\<forall>s. fault w s = None)"

text \<open>The names that \<open>path.Join\<close> does not keep as a segment of their own.\<close>

definition degenerate :: "string \<Rightarrow> bool" where
  "degenerate s = (s = '''' \<or> s = ''.'' \<or> s = ''..'')"

text \<open>
  A small hash function for the examples (one byte, the sum of the input), a second
  one with two bytes, a file system that holds the root directory only, and a
  repository on it.
\<close>

definition sum_hash :: hash_Hash where
  "sum_hash = \<lparr>hash_Sum = (\<lambda>bs. [fold (+) bs 0]), hash_Size = 1\<rparr>"

definition sum2_hash :: hash_Hash where
  "sum2_hash = \<lparr>hash_Sum = (\<lambda>bs. [fold (+) bs 0, of_nat (length bs)]), hash_Size = 2\<rparr>"

definition root_world :: world where
  "root_world =
     \<lparr>nodes = [([], Directory)], fault = (\<lambda>s. None), short_write = 0, rand = (\<lambda>k. ''000'')\<rparr>"

definition repo :: Dir where
  "repo = \<lparr>path = [''repo''], hash = sum_hash\<rparr>"

definition fresh_world :: world where
  "fresh_world = fst (create repo root_world)"

text \<open>One of the names that \<open>ioutil.TempFile\<close> tries is not taken.\<close>

definition temp_name_free :: "Dir \<Rightarrow> world \<Rightarrow> bool" where
  "temp_name_free r w = (\<exists>j<10000. node_at w (tmp_dir r @ [''temp-'' @ rand w j]) = None)"

text \<open>The example repository on a device where renaming fails, and on a full disk.\<close>

definition rename_fault_world :: world where
  "rename_fault_world = fresh_world\<lparr>fault := (\<lambda>s. None)(SysRename := Some EIO)\<rparr>"

definition write_fault_world :: world where
  "write_fault_world = fresh_world\<lparr>fault := (\<lambda>s. None)(SysWrite := Some ENOSPC)\<rparr>"

section \<open>Properties\<close>

subsection \<open>Bytes and hexadecimal text\<close>

lemma of_char_char_of_unat: "of_char (char_of (unat (a::byte))) = a"
proof -
  have "(of_char (char_of (unat a)) :: byte) = of_nat (of_char (char_of (unat a)))"
    by (simp only: of_nat_of_char)
  also have "\<dots> = of_nat (unat a mod 256)" by (simp only: of_char_of)
  also have "unat a mod 256 = unat a"
    using unsigned_less [of a, where ?'a = nat] by simp
  finally show ?thesis by simp
qed

lemma bytes_of_string_of_bytes: "bytes_of_string (string_of_bytes bs) = bs"
  by (induction bs) (simp_all add: bytes_of_string_def string_of_bytes_def of_char_char_of_unat)

lemma fromHexChar_hextable_all:
  "list_all (\<lambda>k. fromHexChar (of_char (hextable ! k)) = Some (of_nat k)) [0..<16]"
  by (simp add: upt_rec hextable_def fromHexChar_def)

lemma fromHexChar_hextable_nat:
  assumes "k < 16"
  shows "fromHexChar (of_char (hextable ! k)) = Some (of_nat k)"
proof -
  have "k \<in> set [0..<16]" using assms by simp
  with fromHexChar_hextable_all show ?thesis unfolding list_all_iff by blast
qed

lemma fromHexChar_hextable:
  "n < 16 \<Longrightarrow> fromHexChar (of_char (hextable ! unat (n::byte))) = Some n"
  using fromHexChar_hextable_nat [of "unat n"] by (simp add: word_less_nat_alt)

lemma low_nibble_less: "(v :: byte) AND 0x0f < 16"
proof -
  have m: "(0x0f :: byte) = mask 4" by (simp add: mask_eq_exp_minus_1)
  show ?thesis unfolding m using and_mask_less' [of 4 v] by simp
qed

lemma high_nibble_less: "drop_bit 4 (v :: byte) < 16"
proof -
  have "unat (drop_bit 4 v) = unat v div 16"
    by (simp add: drop_bit_eq_div unat_div)
  moreover have "unat v < 256" using unsigned_less [of v, where ?'a = nat] by simp
  ultimately have "unat (drop_bit 4 v) < 16" by simp
  then show ?thesis by (simp add: word_less_nat_alt)
qed

lemma nibbles_join: "push_bit 4 (drop_bit 4 v) OR (v AND 0x0f) = (v :: byte)"
proof -
  have m: "(0x0f :: byte) = mask 4" by (simp add: mask_eq_exp_minus_1)
  show ?thesis
    unfolding m by (rule bit_eqI) (auto simp add: bit_simps)
qed

lemma hex_Decode_Encode: "hex_Decode (hex_Encode bs) = Inr bs"
  by (induction bs)
     (simp_all add: fromHexChar_hextable low_nibble_less high_nibble_less nibbles_join)

lemma length_hex_Encode: "length (hex_Encode bs) = 2 * length bs"
  by (induction bs) simp_all

lemma hex_DecodeString_ID_String: "hex_DecodeString (ID_String i) = Inr i"
  by (simp add: hex_DecodeString_def ID_String_def hex_EncodeToString_def
      bytes_of_string_of_bytes hex_Decode_Encode)

text \<open>Decoding fails exactly on text that is not valid hexadecimal.\<close>

lemma unat_of_char: "unat (of_char c :: byte) = of_char c"
proof -
  have "(of_char c :: byte) = of_nat (of_char c)" by (simp only: of_nat_of_char)
  then have "unat (of_char c :: byte) = (of_char c :: nat) mod 256"
    by (simp add: unat_of_nat)
  then show ?thesis by simp
qed

lemma fromHexChar_None_code: "fromHexChar (of_char c) = None \<longleftrightarrow> \<not> hex_code (of_char c)"
  by (auto simp add: fromHexChar_def word_le_nat_alt unat_of_char hex_code_def)

lemma hex_codes:
  "\<forall>n \<in> set ([48..<58] @ [97..<103] @ [65..<71]).
     n \<in> of_char ` set ''0123456789abcdefABCDEF''"
  by simp

lemma is_hex_digit_code: "is_hex_digit c \<longleftrightarrow> hex_code (of_char c)"
proof
  assume "is_hex_digit c"
  then show "hex_code (of_char c)"
    by (auto simp add: is_hex_digit_def hex_code_def)
next
  assume "hex_code (of_char c)"
  then have "(of_char c :: nat) \<in> set ([48..<58] @ [97..<103] @ [65..<71])"
    unfolding hex_code_def set_append set_upt Un_iff atLeastLessThan_iff by presburger
  with hex_codes have "(of_char c :: nat) \<in> of_char ` set ''0123456789abcdefABCDEF''"
    by blast
  then obtain d where "d \<in> set ''0123456789abcdefABCDEF''" "(of_char c :: nat) = of_char d"
    by blast
  then show "is_hex_digit c" by (simp add: is_hex_digit_def)
qed

lemma fromHexChar_None_iff: "fromHexChar (of_char c) = None \<longleftrightarrow> \<not> is_hex_digit c"
  by (simp add: fromHexChar_None_code is_hex_digit_code)

lemma hex_Decode_error_iff:
  "(\<exists>err. hex_Decode bs = Inl err) \<longleftrightarrow>
   \<not> (even (length bs) \<and> list_all (\<lambda>b. fromHexChar b \<noteq> None) bs)"
  by (induction bs rule: hex_Decode.induct) (auto split: option.splits sum.splits)

lemma hex_DecodeString_error_iff:
  "(\<exists>err. hex_DecodeString s = Inl err) \<longleftrightarrow> \<not> valid_hex s"
  by (simp add: hex_DecodeString_def bytes_of_string_def hex_Decode_error_iff valid_hex_def
      list_all_iff fromHexChar_None_iff)

lemma hex_Decode_error_kind:
  "hex_Decode bs = Inl err \<Longrightarrow> err = ErrLength \<or> (\<exists>b \<in> set bs. err = InvalidByteError b)"
  by (induction bs arbitrary: err rule: hex_Decode.induct) (auto split: option.splits sum.splits)

subsection \<open>The table of nodes\<close>

lemma node_at_set_node [simp]:
  "node_at (set_node p n w) q = (if q = p then Some n else node_at w q)"
  by (simp add: node_at_def set_node_def update_conv')

lemma node_at_del_node [simp]:
  "node_at (del_node p w) q = (if q = p then None else node_at w q)"
  by (simp add: node_at_def del_node_def delete_conv')

lemma node_at_rand_update [simp]: "node_at (w\<lparr>rand := f\<rparr>) q = node_at w q"
  by (simp add: node_at_def)

lemma world_fields_set_node [simp]:
  "fault (set_node p n w) = fault w"
  "short_write (set_node p n w) = short_write w"
  "rand (set_node p n w) = rand w"
  by (simp_all add: set_node_def)

lemma world_fields_del_node [simp]:
  "fault (del_node p w) = fault w"
  "short_write (del_node p w) = short_write w"
  "rand (del_node p w) = rand w"
  by (simp_all add: del_node_def)

lemma in_ls_iff: "x \<in> set (ls w d) \<longleftrightarrow> node_at w (d @ [x]) \<noteq> None"
proof -
  have "x \<in> set (ls w d) \<longleftrightarrow> (\<exists>q \<in> fst ` set (nodes w). q \<noteq> [] \<and> butlast q = d \<and> last q = x)"
    by (auto simp add: ls_def)
  also have "\<dots> \<longleftrightarrow> d @ [x] \<in> fst ` set (nodes w)"
    by (metis append_butlast_last_id butlast_snoc last_snoc snoc_eq_iff_butlast)
  finally show ?thesis
    by (simp add: node_at_def map_of_eq_None_iff)
qed

lemma ls_empty_iff: "ls w d = [] \<longleftrightarrow> (\<forall>x. node_at w (d @ [x]) = None)"
  using in_ls_iff [of _ w d] by (metis empty_iff empty_set equals0I set_empty)

lemma distinct_ls: "distinct (map fst (nodes w)) \<Longrightarrow> distinct (ls w d)"
proof -
  assume d: "distinct (map fst (nodes w))"
  have "inj_on last {q. q \<noteq> [] \<and> butlast q = d}"
    by (rule inj_onI) (metis (mono_tags, lifting) append_butlast_last_id mem_Collect_eq)
  then have "inj_on last (set (filter (\<lambda>q. q \<noteq> [] \<and> butlast q = d) (map fst (nodes w))))"
    by (rule inj_on_subset) auto
  with d show ?thesis
    by (simp add: ls_def distinct_map)
qed

lemma distinct_set_node: "distinct (map fst (nodes w)) \<Longrightarrow> distinct (map fst (nodes (set_node p n w)))"
  by (simp add: set_node_def distinct_update)

lemma distinct_del_node: "distinct (map fst (nodes w)) \<Longrightarrow> distinct (map fst (nodes (del_node p w)))"
  by (simp add: del_node_def distinct_delete)

subsection \<open>Names\<close>

lemma char_of_unat_of_char: "char_of (unat (of_char c :: byte)) = c"
  by (simp add: unat_of_char)

lemma hextable_nth_in: "k < 16 \<Longrightarrow> hextable ! k \<in> set hextable"
proof -
  assume "k < 16"
  moreover have "length hextable = 16" by (simp add: hextable_def)
  ultimately show ?thesis by (simp only: nth_mem)
qed

lemma ID_String_Nil [simp]: "ID_String [] = []"
  by (simp add: ID_String_def hex_EncodeToString_def string_of_bytes_def)

lemma ID_String_Cons:
  "ID_String (v # i) =
     hextable ! unat (drop_bit 4 v) # hextable ! unat (v AND 0x0f) # ID_String i"
  by (simp add: ID_String_def hex_EncodeToString_def string_of_bytes_def char_of_unat_of_char)

lemma ID_String_eq_Nil [simp]: "ID_String i = [] \<longleftrightarrow> i = []"
  by (cases i) (simp_all add: ID_String_Cons)

lemma length_ID_String: "length (ID_String i) = 2 * length i"
  by (induction i) (simp_all add: ID_String_Cons)

lemma ID_String_not_degenerate: "i \<noteq> [] \<Longrightarrow> \<not> degenerate (ID_String i)"
proof (cases i)
  case Nil
  assume "i \<noteq> []" with Nil show ?thesis by simp
next
  case (Cons v j)
  have "unat (drop_bit 4 v) < 16"
    using high_nibble_less [of v] by (simp add: word_less_nat_alt)
  then have "hextable ! unat (drop_bit 4 v) \<in> set hextable"
    by (rule hextable_nth_in)
  then have "hextable ! unat (drop_bit 4 v) \<noteq> CHR ''.''"
    by (auto simp add: hextable_def)
  with Cons show ?thesis
    by (auto simp add: degenerate_def ID_String_Cons)
qed

lemma bytes_of_ID_String: "bytes_of_string (ID_String i) = hex_Encode i"
  by (simp add: ID_String_def hex_EncodeToString_def bytes_of_string_of_bytes)

lemma path_Join_one: "\<not> degenerate a \<Longrightarrow> path_Join root [a] = root @ [a]"
  by (simp add: path_Join_def clean_step_def degenerate_def)

lemma path_Join_two:
  "\<not> degenerate a \<Longrightarrow> \<not> degenerate b \<Longrightarrow> path_Join root [a, b] = root @ [a, b]"
  by (simp add: path_Join_def clean_step_def degenerate_def)

lemma path_Join_empty: "\<not> degenerate a \<Longrightarrow> path_Join root [a, ''''] = root @ [a]"
  by (simp add: path_Join_def clean_step_def degenerate_def)

lemma not_degenerate_consts [simp]:
  "\<not> degenerate objectPath" "\<not> degenerate refPath" "\<not> degenerate tempPath"
  by (simp_all add: degenerate_def objectPath_def refPath_def tempPath_def)

lemma object_name_Nil: "object_name r [] = objects_dir r"
  by (simp add: object_name_def objects_dir_def path_Join_empty)

lemma object_name_Cons: "i \<noteq> [] \<Longrightarrow> object_name r i = objects_dir r @ [ID_String i]"
  by (simp add: object_name_def objects_dir_def path_Join_two ID_String_not_degenerate)

lemma url_QueryEscape_eq_Nil [simp]: "url_QueryEscape s = [] \<longleftrightarrow> s = []"
  by (cases s) simp_all

lemma shouldEscape_dot [simp]: "\<not> shouldEscape CHR ''.''"
  by (simp add: shouldEscape_def)

lemma url_QueryEscape_dot_iff: "url_QueryEscape s = ''.'' \<longleftrightarrow> s = ''.''"
  by (cases s) (auto split: if_splits)

lemma url_QueryEscape_dotdot_iff: "url_QueryEscape s = ''..'' \<longleftrightarrow> s = ''..''"
proof (cases s)
  case Nil
  then show ?thesis by simp
next
  case (Cons c t)
  then show ?thesis
    using url_QueryEscape_dot_iff [of t] by (auto split: if_splits)
qed

lemma degenerate_Name_Encode: "degenerate (Name_Encode n) \<longleftrightarrow> degenerate n"
  by (simp add: degenerate_def Name_Encode_def url_QueryEscape_dot_iff url_QueryEscape_dotdot_iff)

lemma alias_name_eq: "\<not> degenerate n \<Longrightarrow> alias_name r n = refs_dir r @ [Name_Encode n]"
  by (simp add: alias_name_def refs_dir_def path_Join_two degenerate_Name_Encode)

lemma alias_name_empty: "alias_name r '''' = refs_dir r"
  by (simp add: alias_name_def refs_dir_def Name_Encode_def path_Join_empty)

text \<open>An escaped name holds no slash: it is one segment.\<close>

lemma upperhex_nth_no_slash: "k < 16 \<Longrightarrow> upperhex ! k \<noteq> CHR ''/''"
proof -
  assume "k < 16"
  moreover have "length upperhex = 16" by (simp add: upperhex_def)
  ultimately have "upperhex ! k \<in> set upperhex" by (simp only: nth_mem)
  then show ?thesis by (auto simp add: upperhex_def)
qed

lemma shouldEscape_slash: "shouldEscape CHR ''/''"
  by (simp add: shouldEscape_def)

lemma url_QueryEscape_no_slash: "CHR ''/'' \<notin> set (url_QueryEscape s)"
proof (induction s)
  case Nil
  then show ?case by simp
next
  case (Cons c s)
  have "(of_char c :: nat) div 16 < 16" "(of_char c :: nat) mod 16 < 16"
    using nat_of_char_less_256 [of c] by arith+
  then have "upperhex ! ((of_char c :: nat) div 16) \<noteq> CHR ''/''"
    "upperhex ! ((of_char c :: nat) mod 16) \<noteq> CHR ''/''"
    by (simp_all only: upperhex_nth_no_slash not_False_eq_True)
  with Cons show ?case
    using shouldEscape_slash by auto
qed

subsection \<open>System calls\<close>

lemma dir_err_None_iff:
  "dir_err w p = None \<longleftrightarrow> p = [] \<or> node_at w (butlast p) = Some Directory"
  by (auto simp add: dir_err_def split: option.splits node.splits)

lemma stat_in_dir:
  "dir_err w p = None \<Longrightarrow>
   stat w p = (case node_at w p of None \<Rightarrow> Inl ENOENT | Some n \<Rightarrow> Inr n)"
  by (simp add: stat_def)

lemma stat_Inr_iff: "stat w p = Inr n \<longleftrightarrow> dir_err w p = None \<and> node_at w p = Some n"
  by (auto simp add: stat_def split: option.splits)

lemma open_excl_result:
  assumes "open_excl name w = (w', res)"
  shows "(\<exists>e. res = Inl e \<and> w' = w) \<or>
         (res = Inr name \<and> w' = set_node name (File []) w \<and>
          node_at w name = None \<and> dir_err w name = None)"
  using assms by (auto simp add: open_excl_def split: option.splits)

lemma tempfile_loop_result:
  assumes "tempfile_loop k dir pfx w = (w', res)"
  shows "(\<exists>e g. res = Inl e \<and> w' = w\<lparr>rand := g\<rparr>) \<or>
         (\<exists>s g. res = Inr (dir @ [pfx @ s]) \<and>
                w' = set_node (dir @ [pfx @ s]) (File []) (w\<lparr>rand := g\<rparr>) \<and>
                node_at w (dir @ [pfx @ s]) = None \<and> node_at w dir = Some Directory)"
  using assms
proof (induction k arbitrary: w)
  case 0
  then have "res = Inl (Errno EEXIST)" "w' = w\<lparr>rand := rand w\<rparr>" by simp_all
  then show ?case by blast
next
  case (Suc k)
  let ?name = "dir @ [pfx @ rand w 0]"
  let ?w1 = "w\<lparr>rand := \<lambda>i. rand w (Suc i)\<rparr>"
  obtain w2 r2 where o: "open_excl ?name ?w1 = (w2, r2)" by (cases "open_excl ?name ?w1")
  from open_excl_result [OF o] show ?case
  proof (elim disjE exE conjE)
    fix e assume e: "r2 = Inl e" "w2 = ?w1"
    show ?thesis
    proof (cases "os_IsExist e")
      case True
      with Suc.prems o e have "tempfile_loop k dir pfx ?w1 = (w', res)" by (simp add: Let_def)
      from Suc.IH [OF this] show ?thesis by (auto simp add: dir_err_None_iff)
    next
      case False
      with Suc.prems o e have "res = Inl e" "w' = ?w1" by (simp_all add: Let_def)
      then show ?thesis by blast
    qed
  next
    assume a: "r2 = Inr ?name" "w2 = set_node ?name (File []) ?w1"
      "node_at ?w1 ?name = None" "dir_err ?w1 ?name = None"
    with Suc.prems o have "res = Inr ?name" "w' = w2" by (simp_all add: Let_def)
    with a show ?thesis by (auto simp add: dir_err_None_iff)
  qed
qed

lemma tempfile_loop_first:
  assumes "fault w SysTempFile = None" "node_at w dir = Some Directory"
    "node_at w (dir @ [pfx @ rand w 0]) = None"
  shows "tempfile_loop (Suc k) dir pfx w =
           (set_node (dir @ [pfx @ rand w 0]) (File []) (w\<lparr>rand := \<lambda>i. rand w (Suc i)\<rparr>),
            Inr (dir @ [pfx @ rand w 0]))"
  using assms by (simp add: open_excl_def dir_err_def Let_def)

lemma ioutil_TempFile_result:
  assumes "ioutil_TempFile dir pfx w = (w', res)"
  shows "(\<exists>e g. res = Inl e \<and> w' = w\<lparr>rand := g\<rparr>) \<or>
         (\<exists>s g. res = Inr (dir @ [pfx @ s]) \<and>
                w' = set_node (dir @ [pfx @ s]) (File []) (w\<lparr>rand := g\<rparr>) \<and>
                node_at w (dir @ [pfx @ s]) = None \<and> node_at w dir = Some Directory)"
  using assms tempfile_loop_result unfolding ioutil_TempFile_def by blast

lemma ioutil_TempFile_first:
  assumes "fault w SysTempFile = None" "node_at w dir = Some Directory"
    "node_at w (dir @ [pfx @ rand w 0]) = None"
  shows "ioutil_TempFile dir pfx w =
           (set_node (dir @ [pfx @ rand w 0]) (File []) (w\<lparr>rand := \<lambda>i. rand w (Suc i)\<rparr>),
            Inr (dir @ [pfx @ rand w 0]))"
proof -
  have "(10000::nat) = Suc 9999" by simp
  then show ?thesis
    unfolding ioutil_TempFile_def using tempfile_loop_first [OF assms] by metis
qed

lemma os_Rename_failed: "os_Rename old new w = (w', Some e) \<Longrightarrow> w' = w"
  by (auto simp add: os_Rename_def split: option.splits sum.splits node.splits if_splits)

lemma os_Rename_file:
  assumes "node_at w old = Some (File c)" "dir_err w old = None"
  shows "os_Rename old new w =
     (case fault w SysRename of
        Some e \<Rightarrow> (w, Some (Errno e))
      | None \<Rightarrow>
          (case dir_err w new of
             Some e \<Rightarrow> (w, Some (Errno e))
           | None \<Rightarrow>
               if node_at w new = Some Directory then (w, Some (Errno EISDIR))
               else (set_node new (File c) (del_node old w), None)))"
  using assms
  by (auto simp add: os_Rename_def stat_in_dir split: option.splits node.splits)

subsection \<open>Put, step by step\<close>

lemma Put_TempFile_failed:
  "ioutil_TempFile (tmp_dir r) ''temp-'' w = (w1, Inl e) \<Longrightarrow> Put r b w = (w1, Inl e)"
  by (simp add: Put_def tmp_dir_def path_Join_one)

lemma Put_after_TempFile:
  assumes "ioutil_TempFile (tmp_dir r) ''temp-'' w = (w1, Inr f)"
    and "node_at w1 f = Some (File [])"
  shows "Put r b w =
     (case fault w1 SysWrite of
        Some e \<Rightarrow> (set_node f (File (take (min (short_write w1) (length b)) b)) w1, Inl (Errno e))
      | None \<Rightarrow>
          (case fault w1 SysClose of
             Some e \<Rightarrow> (set_node f (File b) w1, Inl (Errno e))
           | None \<Rightarrow>
               (case os_Rename f (object_name r (hash_Sum (hash r) b)) (set_node f (File b) w1) of
                  (w3, Some err) \<Rightarrow> (w3, Inl err)
                | (w3, None) \<Rightarrow> (w3, Inr (hash_Sum (hash r) b)))))"
  using assms
  by (simp add: Put_def tmp_dir_def path_Join_one io_Copy_def file_Write_def hashing_NewReader_def
      Reader_Hash_def file_Close_def object_name_def Let_def split: option.splits)

text \<open>
  What a call of \<open>Put\<close> can have done: the five ways it can end, with the world it
  leaves. The temporary file is \<open>f\<close>.
\<close>

lemma Put_cases [consumes 1, case_names TempFile Copy Close Rename Done]:
  assumes "Put r b w = (w', res)"
  obtains
    (TempFile) e g where "res = Inl e" "w' = w\<lparr>rand := g\<rparr>"
  | (Copy) e g s k where "res = Inl e" "node_at w (tmp_dir r @ [s]) = None"
      "w' = set_node (tmp_dir r @ [s]) (File (take k b)) (w\<lparr>rand := g\<rparr>)"
  | (Close) e g s where "res = Inl e" "node_at w (tmp_dir r @ [s]) = None"
      "w' = set_node (tmp_dir r @ [s]) (File b) (w\<lparr>rand := g\<rparr>)"
  | (Rename) e g s where "res = Inl e" "node_at w (tmp_dir r @ [s]) = None"
      "w' = set_node (tmp_dir r @ [s]) (File b) (w\<lparr>rand := g\<rparr>)"
      "fault w SysWrite = None" "fault w SysClose = None"
      "os_Rename (tmp_dir r @ [s]) (object_name r (hash_Sum (hash r) b)) w' = (w', Some e)"
  | (Done) g s where "res = Inr (hash_Sum (hash r) b)" "node_at w (tmp_dir r @ [s]) = None"
      "node_at w (tmp_dir r) = Some Directory"
      "w' = set_node (object_name r (hash_Sum (hash r) b)) (File b)
              (del_node (tmp_dir r @ [s]) (set_node (tmp_dir r @ [s]) (File b) (w\<lparr>rand := g\<rparr>)))"
      "dir_err w (object_name r (hash_Sum (hash r) b)) = None"
      "node_at w (object_name r (hash_Sum (hash r) b)) \<noteq> Some Directory"
proof -
  obtain w1 r1 where tf: "ioutil_TempFile (tmp_dir r) ''temp-'' w = (w1, r1)"
    by (cases "ioutil_TempFile (tmp_dir r) ''temp-'' w")
  from ioutil_TempFile_result [OF tf] show thesis
  proof (elim disjE exE conjE)
    fix e g assume "r1 = Inl e" "w1 = w\<lparr>rand := g\<rparr>"
    with tf assms Put_TempFile_failed [of r w w1 e b] show thesis
      by (auto intro: TempFile)
  next
    fix s g
    let ?f = "tmp_dir r @ [''temp-'' @ s]"
    let ?o = "object_name r (hash_Sum (hash r) b)"
    assume a: "r1 = Inr ?f" "w1 = set_node ?f (File []) (w\<lparr>rand := g\<rparr>)"
      "node_at w ?f = None" "node_at w (tmp_dir r) = Some Directory"
    then have n1: "node_at w1 ?f = Some (File [])" by simp
    have sn: "\<And>c. set_node ?f (File c) w1 = set_node ?f (File c) (w\<lparr>rand := g\<rparr>)"
      using a(2) by (simp add: set_node_def)
    note P = Put_after_TempFile [OF tf [unfolded a(1)] n1, of b, unfolded assms]
    have fl: "fault w1 = fault w" using a(2) by simp
    show thesis
    proof (cases "fault w SysWrite")
      case (Some e)
      with P fl sn a show thesis by (auto intro: Copy)
    next
      case None
      note wr = this
      show thesis
      proof (cases "fault w SysClose")
        case (Some e)
        with P fl sn a wr show thesis by (auto intro: Close)
      next
        case None
        let ?w2 = "set_node ?f (File b) (w\<lparr>rand := g\<rparr>)"
        have de: "dir_err ?w2 ?f = None"
          using a(4) by (simp add: dir_err_None_iff)
        have nf: "node_at ?w2 ?f = Some (File b)" by simp
        obtain w3 r3 where rn: "os_Rename ?f ?o ?w2 = (w3, r3)" by (cases "os_Rename ?f ?o ?w2")
        show thesis
        proof (cases r3)
          case (Some e)
          with rn have "w3 = ?w2" by (simp add: os_Rename_failed)
          with P fl sn wr None rn Some a show thesis by (auto intro: Rename)
        next
          case rNone: None
          from rn rNone have ok: "dir_err ?w2 ?o = None" "node_at ?w2 ?o \<noteq> Some Directory"
            "w3 = set_node ?o (File b) (del_node ?f ?w2)"
            unfolding os_Rename_file [OF nf de]
            by (auto split: option.splits if_splits)
          from ok(1) a(3) have d: "dir_err w ?o = None"
            by (auto simp add: dir_err_None_iff split: if_splits)
          from ok(2) a(3) have n: "node_at w ?o \<noteq> Some Directory"
            by (auto split: if_splits)
          from P fl sn wr None rn rNone have "res = Inr (hash_Sum (hash r) b)" "w' = w3"
            by auto
          with ok(3) d n a show thesis by (auto intro: Done)
        qed
      qed
    qed
  qed
qed

lemma tempfile_loop_succeeds:
  assumes "fault w SysTempFile = None" "node_at w dir = Some Directory"
    "\<exists>j<k. node_at w (dir @ [pfx @ rand w j]) = None"
  shows "\<exists>w' f. tempfile_loop k dir pfx w = (w', Inr f)"
  using assms
proof (induction k arbitrary: w)
  case 0
  then show ?case by simp
next
  case (Suc k)
  show ?case
  proof (cases "node_at w (dir @ [pfx @ rand w 0])")
    case None
    with Suc.prems tempfile_loop_first [of w dir pfx k] show ?thesis by simp
  next
    case (Some n)
    let ?w1 = "w\<lparr>rand := \<lambda>i. rand w (Suc i)\<rparr>"
    from Suc.prems(3) obtain j where j: "j < Suc k" "node_at w (dir @ [pfx @ rand w j]) = None"
      by blast
    with Some obtain j' where "j = Suc j'" by (cases j) auto
    with j have "\<exists>j<k. node_at ?w1 (dir @ [pfx @ rand ?w1 j]) = None" by auto
    moreover have "fault ?w1 SysTempFile = None" "node_at ?w1 dir = Some Directory"
      using Suc.prems by simp_all
    ultimately have "\<exists>w' f. tempfile_loop k dir pfx ?w1 = (w', Inr f)"
      by (rule Suc.IH [rotated 2])
    moreover have "tempfile_loop (Suc k) dir pfx w = tempfile_loop k dir pfx ?w1"
      using Some Suc.prems(1,2)
      by (simp add: Let_def open_excl_def dir_err_def os_IsExist_def)
    ultimately show ?thesis by simp
  qed
qed

lemma Put_Inr:
  assumes "Put r b w = (w', Inr i)"
  shows "i = hash_Sum (hash r) b" and "stat w' (object_name r i) = Inr (File b)"
    and "fault w' = fault w"
  using assms
proof (induction rule: Put_cases)
  case (Done g s)
  let ?o = "object_name r (hash_Sum (hash r) b)"
  {
    case 1 from Done show ?case by simp
  next
    case 2
    from Done have "i = hash_Sum (hash r) b" by simp
    moreover from Done have "node_at w' ?o = Some (File b)" by simp
    moreover from Done have "dir_err w' ?o = None"
      by (auto simp add: dir_err_None_iff)
    ultimately show ?case by (simp add: stat_Inr_iff)
  next
    case 3 from Done show ?case by simp
  }
qed simp_all

lemma Put_succeeds:
  assumes "repo_ok r w"
    and "fault w SysTempFile = None" "fault w SysWrite = None"
        "fault w SysClose = None" "fault w SysRename = None"
    and "temp_name_free r w"
    and "node_at w (object_name r (hash_Sum (hash r) b)) \<noteq> Some Directory"
  shows "\<exists>w'. Put r b w = (w', Inr (hash_Sum (hash r) b))"
proof -
  let ?o = "object_name r (hash_Sum (hash r) b)"
  from assms(1) have td: "node_at w (tmp_dir r) = Some Directory"
    and od: "node_at w (objects_dir r) = Some Directory"
    by (simp_all add: repo_ok_def)
  from assms(6) have "\<exists>j<10000. node_at w (tmp_dir r @ [''temp-'' @ rand w j]) = None"
    by (simp add: temp_name_free_def)
  from tempfile_loop_succeeds [OF assms(2) td this]
  obtain w1 f where tf: "ioutil_TempFile (tmp_dir r) ''temp-'' w = (w1, Inr f)"
    by (auto simp add: ioutil_TempFile_def)
  from ioutil_TempFile_result [OF tf] obtain s g where
    f: "f = tmp_dir r @ [''temp-'' @ s]" and w1: "w1 = set_node f (File []) (w\<lparr>rand := g\<rparr>)"
    and fr: "node_at w f = None"
    by auto
  have n1: "node_at w1 f = Some (File [])" using w1 by simp
  let ?w2 = "set_node f (File b) w1"
  have nf: "node_at ?w2 f = Some (File b)" by simp
  have de: "dir_err ?w2 f = None"
    using td f w1 by (simp add: dir_err_None_iff)
  have ne: "hash_Sum (hash r) b \<noteq> []"
    using assms(7) od by (auto simp add: object_name_Nil)
  then have o: "?o = objects_dir r @ [ID_String (hash_Sum (hash r) b)]"
    by (rule object_name_Cons)
  have fo: "f \<noteq> objects_dir r"
    using f by (simp add: tmp_dir_def objects_dir_def)
  have do: "dir_err ?w2 ?o = None"
    using od fo w1 by (simp add: dir_err_None_iff o)
  have no: "node_at ?w2 ?o \<noteq> Some Directory"
    using assms(7) w1 by simp
  have fl: "fault w1 = fault w" using w1 by simp
  show ?thesis
    unfolding Put_after_TempFile [OF tf n1]
    using assms(3,4,5) fl do no
    by (simp add: os_Rename_file [OF nf de])
qed

subsection \<open>The example repository\<close>

lemma fresh_world_nodes:
  "nodes fresh_world =
     [([], Directory), ([''repo''], Directory), ([''repo'', ''objects''], Directory),
      ([''repo'', ''refs''], Directory), ([''repo'', ''tmp''], Directory)]"
  by (simp add: fresh_world_def create_def repo_def root_world_def path_Join_def clean_step_def
      objectPath_def refPath_def tempPath_def os_MkdirAll.simps node_at_def set_node_def)

lemma fresh_world_fields:
  "fault fresh_world = (\<lambda>s. None)" "rand fresh_world = (\<lambda>k. ''000'')"
  "short_write fresh_world = 0"
  by (simp_all add: fresh_world_def create_def repo_def root_world_def path_Join_def clean_step_def
      objectPath_def refPath_def tempPath_def os_MkdirAll.simps node_at_def set_node_def)

lemma repo_ok_fresh_world: "repo_ok repo fresh_world"
  by (simp add: repo_ok_def node_at_def fresh_world_nodes repo_def objects_dir_def refs_dir_def
      tmp_dir_def objectPath_def refPath_def tempPath_def)

lemma no_faults_fresh_world: "no_faults fresh_world"
  by (simp add: no_faults_def fresh_world_fields)

lemma temp_name_free_fresh_world: "temp_name_free repo fresh_world"
proof -
  have "node_at fresh_world (tmp_dir repo @ [''temp-'' @ rand fresh_world 0]) = None"
    by (simp add: node_at_def fresh_world_nodes fresh_world_fields repo_def tmp_dir_def tempPath_def)
  then show ?thesis unfolding temp_name_free_def by (intro exI [of _ 0]) simp
qed

lemma sum_hash_123: "hash_Sum (hash repo) [1, 2, 3] = [6]"
  by (simp add: repo_def sum_hash_def)

lemma object_name_repo_6: "object_name repo [6] = [''repo'', ''objects'', ''06'']"
  by (simp add: object_name_def repo_def path_Join_def clean_step_def objectPath_def
      ID_String_Cons hextable_def)

subsection \<open>Put on a repository without leftovers\<close>

lemma count_list_distinct: "distinct xs \<Longrightarrow> x \<in> set xs \<Longrightarrow> count_list xs x = 1"
  by (induction xs) auto

lemma temp_name_free_empty_tmp: "ls w (tmp_dir r) = [] \<Longrightarrow> temp_name_free r w"
  unfolding temp_name_free_def ls_empty_iff by (intro exI [of _ 0]) simp

lemma Put_step:
  assumes ok: "repo_ok r w" and nf: "no_faults w" and tmp: "ls w (tmp_dir r) = []"
    and nd: "node_at w (object_name r (hash_Sum (hash r) b)) \<noteq> Some Directory"
  shows "\<exists>w1. Put r b w = (w1, Inr (hash_Sum (hash r) b)) \<and>
              repo_ok r w1 \<and> no_faults w1 \<and> ls w1 (tmp_dir r) = [] \<and>
              node_at w1 (object_name r (hash_Sum (hash r) b)) = Some (File b) \<and>
              (\<forall>q. q \<noteq> object_name r (hash_Sum (hash r) b) \<longrightarrow> node_at w1 q = node_at w q) \<and>
              (distinct (map fst (nodes w)) \<longrightarrow> distinct (map fst (nodes w1)))"
proof -
  let ?o = "object_name r (hash_Sum (hash r) b)"
  from nf have f: "\<And>s. fault w s = None" by (simp add: no_faults_def)
  from Put_succeeds [OF ok f f f f temp_name_free_empty_tmp [OF tmp] nd]
  obtain w1 where p: "Put r b w = (w1, Inr (hash_Sum (hash r) b))" by blast
  from tmp have te: "\<And>x. node_at w (tmp_dir r @ [x]) = None" by (simp add: ls_empty_iff)
  from p show ?thesis
  proof (cases rule: Put_cases)
    case (Done g s)
    let ?f = "tmp_dir r @ [s]"
    have w1: "w1 = set_node ?o (File b) (del_node ?f (set_node ?f (File b) (w\<lparr>rand := g\<rparr>)))"
      by (rule Done(4))
    have at: "\<And>q. node_at w1 q = (if q = ?o then Some (File b) else node_at w q)"
      unfolding w1 using te by simp
    have "repo_ok r w1"
      using ok nd unfolding repo_ok_def at by auto
    moreover have "no_faults w1"
      using nf unfolding w1 no_faults_def by simp
    moreover have "ls w1 (tmp_dir r) = []"
    proof -
      have "?o \<noteq> tmp_dir r @ [x]" for x
      proof (cases "hash_Sum (hash r) b = []")
        case True
        then show ?thesis by (simp add: object_name_Nil objects_dir_def tmp_dir_def)
      next
        case False
        then show ?thesis
          by (simp add: object_name_Cons objects_dir_def tmp_dir_def objectPath_def tempPath_def)
      qed
      then show ?thesis unfolding ls_empty_iff at using te by metis
    qed
    moreover have "distinct (map fst (nodes w)) \<longrightarrow> distinct (map fst (nodes w1))"
      unfolding w1 by (simp add: set_node_def del_node_def distinct_update distinct_delete)
    ultimately show ?thesis using p at by simp
  qed simp_all
qed

lemma ls_fresh_world_tmp: "ls fresh_world (tmp_dir repo) = []"
  by (simp add: ls_def fresh_world_nodes tmp_dir_def repo_def tempPath_def)

section \<open>The claims\<close>

text \<open>
  Claim C9. For every identifier \<open>i\<close>, \<open>EqualString\<close> applied to \<open>i.String()\<close>
  returns true and no error. For every string \<open>s\<close> that is not hexadecimal text of
  even length, \<open>EqualString\<close> (on any identifier) returns false together with a decode
  error, \<open>ErrLength\<close> or \<open>InvalidByteError\<close>.
\<close>

theorem EqualString_round_trip:
  "ID_EqualString i (ID_String i) = (True, None) \<and>
   (\<not> valid_hex s \<longrightarrow>
      (\<exists>err. ID_EqualString j s = (False, Some err) \<and>
             (err = ErrLength \<or> (\<exists>b. err = InvalidByteError b))))"
proof (intro conjI impI)
  show "ID_EqualString i (ID_String i) = (True, None)"
    by (simp add: ID_EqualString_def hex_DecodeString_ID_String ID_Equal_def)
next
  assume "\<not> valid_hex s"
  then obtain err where e: "hex_DecodeString s = Inl err"
    using hex_DecodeString_error_iff by blast
  then have "err = ErrLength \<or> (\<exists>b. err = InvalidByteError b)"
    using hex_Decode_error_kind [of "bytes_of_string s" err]
    by (auto simp add: hex_DecodeString_def)
  with e show "\<exists>err. ID_EqualString j s = (False, Some err) \<and>
             (err = ErrLength \<or> (\<exists>b. err = InvalidByteError b))"
    by (simp add: ID_EqualString_def)
qed

theorem EqualString_round_trip_witness:
  "\<not> valid_hex ''abc'' \<and>
   ID_EqualString [0xab, 0x01] (ID_String [0xab, 0x01]) = (True, None) \<and>
   (\<exists>err. ID_EqualString [0xab, 0x01] ''abc'' = (False, Some err))"
proof -
  have h: "\<not> valid_hex ''abc''" by (simp add: valid_hex_def)
  from EqualString_round_trip [of "[0xab, 0x01]" "''abc''" "[0xab, 0x01]"] h
  show ?thesis by blast
qed

text \<open>
  Claim C1. For every byte sequence \<open>b\<close>, \<open>Put\<close> returns the digest of \<open>b\<close> under the
  hash function the repository is configured with, and \<open>Get\<close> of that identifier
  returns a stream whose contents are \<open>b\<close>. This holds in every world in which the
  directory tree of the repository exists, no system call meets an outside error, one
  of the temporary names drawn is free, and the name of the object is not taken by a
  directory (which also excludes a hash function with an empty digest, whose object
  name is the directory \<open>objects\<close> itself).
\<close>

theorem Put_Get_content:
  assumes "repo_ok r w" and "no_faults w" and "temp_name_free r w"
    and "node_at w (object_name r (hash_Sum (hash r) b)) \<noteq> Some Directory"
  shows "\<exists>w'. Put r b w = (w', Inr (hash_Sum (hash r) b)) \<and>
              Get r (hash_Sum (hash r) b) w' = Inr (File b)"
proof -
  from assms(2) have nf: "\<And>s. fault w s = None" by (simp add: no_faults_def)
  from Put_succeeds [OF assms(1) nf nf nf nf assms(3,4)]
  obtain w' where p: "Put r b w = (w', Inr (hash_Sum (hash r) b))" by blast
  from Put_Inr(2,3) [OF p] nf
  have "Get r (hash_Sum (hash r) b) w' = Inr (File b)"
    by (simp add: Get_def os_Open_def object_name_def)
  with p show ?thesis by blast
qed


theorem Put_Get_content_witness:
  "repo_ok repo fresh_world \<and> no_faults fresh_world \<and> temp_name_free repo fresh_world \<and>
   node_at fresh_world (object_name repo (hash_Sum (hash repo) [1, 2, 3])) \<noteq> Some Directory \<and>
   (\<exists>w'. Put repo [1, 2, 3] fresh_world = (w', Inr [6]) \<and>
         Get repo [6] w' = Inr (File [1, 2, 3]))"
proof -
  have h: "node_at fresh_world (object_name repo (hash_Sum (hash repo) [1, 2, 3])) \<noteq> Some Directory"
    by (simp add: sum_hash_123 object_name_repo_6 node_at_def fresh_world_nodes)
  from Put_Get_content [OF repo_ok_fresh_world no_faults_fresh_world temp_name_free_fresh_world h]
  show ?thesis
    using repo_ok_fresh_world no_faults_fresh_world temp_name_free_fresh_world h
    by (simp add: sum_hash_123)
qed

text \<open>
  Claim C2. Two calls of \<open>Put\<close> with the same bytes return the same identifier, and
  afterwards the directory \<open>objects\<close> holds exactly one entry with the name of that
  identifier, a file with these bytes: the second call leaves every entry of the file
  system as the first call left it. The world is one in which the directory tree
  exists, no system call meets an outside error, \<open>tmp\<close> holds no leftover file, the
  object's name is not taken by a directory, and the table names every path once.
\<close>

theorem Put_twice:
  assumes "repo_ok r w" and "no_faults w" and "ls w (tmp_dir r) = []"
    and "node_at w (object_name r (hash_Sum (hash r) b)) \<noteq> Some Directory"
    and "distinct (map fst (nodes w))"
  shows "\<exists>w1 w2. Put r b w = (w1, Inr (hash_Sum (hash r) b)) \<and>
                 Put r b w1 = (w2, Inr (hash_Sum (hash r) b)) \<and>
                 node_at w2 (object_name r (hash_Sum (hash r) b)) = Some (File b) \<and>
                 (\<forall>q. node_at w2 q = node_at w1 q) \<and>
                 object_name r (hash_Sum (hash r) b) = objects_dir r @ [ID_String (hash_Sum (hash r) b)] \<and>
                 count_list (ls w2 (objects_dir r)) (ID_String (hash_Sum (hash r) b)) = 1"
proof -
  let ?h = "hash_Sum (hash r) b"
  let ?o = "object_name r ?h"
  from Put_step [OF assms(1-4)] assms(5) obtain w1 where
    1: "Put r b w = (w1, Inr ?h)" "repo_ok r w1" "no_faults w1" "ls w1 (tmp_dir r) = []"
      "node_at w1 ?o = Some (File b)" "distinct (map fst (nodes w1))"
    by blast
  from 1(5) have nd: "node_at w1 ?o \<noteq> Some Directory" by simp
  from Put_step [OF 1(2,3,4) nd] 1(6) obtain w2 where
    2: "Put r b w1 = (w2, Inr ?h)" "node_at w2 ?o = Some (File b)"
      "\<forall>q. q \<noteq> ?o \<longrightarrow> node_at w2 q = node_at w1 q" "distinct (map fst (nodes w2))"
    by blast
  from 2(2,3) 1(5) have same: "\<forall>q. node_at w2 q = node_at w1 q" by metis
  have ne: "?h \<noteq> []"
    using assms(1,4) by (auto simp add: object_name_Nil repo_ok_def)
  then have o: "?o = objects_dir r @ [ID_String ?h]" by (rule object_name_Cons)
  from 2(2) have "ID_String ?h \<in> set (ls w2 (objects_dir r))"
    by (simp add: in_ls_iff o [symmetric])
  with distinct_ls [OF 2(4)] have "count_list (ls w2 (objects_dir r)) (ID_String ?h) = 1"
    by (rule count_list_distinct)
  with 1(1) 2(1,2) same o show ?thesis by blast
qed

theorem Put_twice_witness:
  "repo_ok repo fresh_world \<and> no_faults fresh_world \<and> ls fresh_world (tmp_dir repo) = [] \<and>
   node_at fresh_world (object_name repo (hash_Sum (hash repo) [1, 2, 3])) \<noteq> Some Directory \<and>
   distinct (map fst (nodes fresh_world)) \<and>
   (\<exists>w1 w2. Put repo [1, 2, 3] fresh_world = (w1, Inr [6]) \<and>
            Put repo [1, 2, 3] w1 = (w2, Inr [6]) \<and>
            node_at w2 [''repo'', ''objects'', ''06''] = Some (File [1, 2, 3]) \<and>
            count_list (ls w2 (objects_dir repo)) ''06'' = 1)"
proof -
  have h: "node_at fresh_world (object_name repo (hash_Sum (hash repo) [1, 2, 3])) \<noteq> Some Directory"
    by (simp add: sum_hash_123 object_name_repo_6 node_at_def fresh_world_nodes)
  have d: "distinct (map fst (nodes fresh_world))"
    by (simp add: fresh_world_nodes)
  have s: "ID_String [6] = ''06''"
    by (simp add: ID_String_Cons hextable_def)
  from Put_twice [OF repo_ok_fresh_world no_faults_fresh_world ls_fresh_world_tmp h d]
  show ?thesis
    using repo_ok_fresh_world no_faults_fresh_world ls_fresh_world_tmp h d
    unfolding sum_hash_123 object_name_repo_6 s by blast
qed

end
